theory Spec2Isabelle
  imports Main
begin

section \<open>Terminal Snake: the game engine of \<open>snake.py\<close>\<close>

text \<open>
  The module keeps three constants, a small class hierarchy (\<open>Actor\<close> with the
  subclasses \<open>Food\<close>, \<open>Score\<close> and \<open>Segment\<close>), the \<open>Snake\<close> that owns a list of
  segments, two services around a curses window, and the \<open>Game\<close> controller.
  Objects are records, mutation is state passing, a raised exception is the left
  injection of a sum. Python's integers are unbounded, so coordinates are \<open>int\<close>;
  Python's \<open>%\<close> with a positive right operand is the floor modulus, which is
  \<open>mod\<close> on \<open>int\<close>.
\<close>

subsection \<open>Constants\<close>

definition MAX_X :: int where "MAX_X = 60"
definition MAX_Y :: int where "MAX_Y = 20"
definition SEGMENTS :: nat where "SEGMENTS = 10"

subsection \<open>Exceptions\<close>

text \<open>
  \<open>IndexError\<close> is what \<open>self._body[0]\<close> and \<open>self._body.pop()\<close> raise on an empty
  list; \<open>SystemExit\<close> is what \<open>sys.exit()\<close> raises.
\<close>

datatype error = IndexError | SystemExit

fun and_then :: "error + 'a \<Rightarrow> ('a \<Rightarrow> error + 'b) \<Rightarrow> error + 'b" where
  "and_then (Inl e) f = Inl e"
| "and_then (Inr x) f = f x"

subsection \<open>Actor\<close>

text \<open>
  The fields \<open>_text\<close>, \<open>_position\<close> and \<open>_velocity\<close>. The getters and setters of the
  class are the selectors and updates of the record.
\<close>

record actor =
  text' :: string
  position :: "int \<times> int"
  velocity :: "int \<times> int"

definition Actor_init :: actor where
  "Actor_init = \<lparr>text' = '''', position = (0, 0), velocity = (0, 0)\<rparr>"

definition Actor_move_next :: "'a actor_scheme \<Rightarrow> 'a actor_scheme" where
  "Actor_move_next a =
     (let x = 1 + (fst (position a) + fst (velocity a) - 1) mod (MAX_X - 2);
          y = 1 + (snd (position a) + snd (velocity a) - 1) mod (MAX_Y - 2)
      in a\<lparr>position := (x, y)\<rparr>)"

subsection \<open>The random generator\<close>

text \<open>
  \<open>random.randint(a, b)\<close> belongs to Python's library: it returns some \<open>N\<close> with
  \<open>a \<le> N \<le> b\<close> and advances the module's generator. The generator is the list
  of the raw draws still to come (zeros once the list is used up); a draw is
  folded into the requested range, so every value of the range can come out and
  no other.
\<close>

record rng =
  draws :: "nat list"

definition randint :: "int \<Rightarrow> int \<Rightarrow> rng \<Rightarrow> int \<times> rng" where
  "randint a b r =
     (case draws r of
        [] \<Rightarrow> (a + 0 mod (b - a + 1), r)
      | n # ns \<Rightarrow> (a + int n mod (b - a + 1), r\<lparr>draws := ns\<rparr>))"

subsection \<open>Food\<close>

definition move_random :: "actor \<Rightarrow> rng \<Rightarrow> actor \<times> rng" where
  "move_random f r =
     (let (x, r1) = randint 1 (MAX_X - 2) r;
          (y, r2) = randint 1 (MAX_Y - 2) r1
      in (f\<lparr>position := (x, y)\<rparr>, r2))"

definition Food_init :: "rng \<Rightarrow> actor \<times> rng" where
  "Food_init r = move_random (Actor_init\<lparr>text' := ''@''\<rparr>) r"

subsection \<open>Score\<close>

text \<open>Python's \<open>str\<close> of an integer, which the f-string of \<open>add_points\<close> applies.\<close>

fun digits :: "nat \<Rightarrow> string" where
  "digits n =
     (if n < 10 then [char_of (48 + n)]
      else digits (n div 10) @ [char_of (48 + n mod 10)])"

declare digits.simps [simp del]

definition str :: "int \<Rightarrow> string" where
  "str i = (if i < 0 then CHR ''-'' # digits (nat (- i)) else digits (nat i))"

record score = actor +
  points :: int

definition add_points :: "score \<Rightarrow> int \<Rightarrow> score" where
  "add_points s p =
     (let s1 = s\<lparr>points := points s + p\<rparr>
      in s1\<lparr>text' := ''Score: '' @ str (points s1)\<rparr>)"

definition Score_init :: score where
  "Score_init =
     add_points (actor.extend Actor_init (score.fields 0)\<lparr>position := (1, 0)\<rparr>) 0"

subsection \<open>Segment\<close>

definition Segment_init :: actor where
  "Segment_init = Actor_init"

definition same_position_as :: "actor \<Rightarrow> int \<times> int \<Rightarrow> bool" where
  "same_position_as a p = (position a = p)"

subsection \<open>Snake\<close>

record snake =
  body :: "actor list"

definition get_body :: "snake \<Rightarrow> actor list" where
  "get_body s = drop 1 (body s)"

definition get_head :: "snake \<Rightarrow> error + actor" where
  "get_head s = (case body s of [] \<Rightarrow> Inl IndexError | h # _ \<Rightarrow> Inr h)"

text \<open>
  \<open>grow_head\<close> moves the head object in place (it stays at index 0) and inserts
  the new segment at index 1; \<open>list.insert(1, x)\<close> appends when the list is shorter.
\<close>

definition grow_head :: "snake \<Rightarrow> error + snake" where
  "grow_head s =
     and_then (get_head s) (\<lambda>head.
       let pos = position head;
           moved = (body s)[0 := Actor_move_next head];
           segment = Segment_init\<lparr>text' := ''#'', position := pos\<rparr>
       in Inr (s\<lparr>body := take 1 moved @ segment # drop 1 moved\<rparr>))"

definition trim_tail :: "snake \<Rightarrow> error + snake" where
  "trim_tail s =
     (if body s = [] then Inl IndexError else Inr (s\<lparr>body := butlast (body s)\<rparr>))"

definition Snake_move_next :: "snake \<Rightarrow> int \<times> int \<Rightarrow> error + snake" where
  "Snake_move_next s direction =
     and_then (get_head s) (\<lambda>head.
       and_then (grow_head (s\<lparr>body := (body s)[0 := head\<lparr>velocity := direction\<rparr>]\<rparr>))
         trim_tail)"

text \<open>The loop \<open>for _ in range(SEGMENTS): self.grow_head()\<close> of the constructor.\<close>

fun grow_times :: "nat \<Rightarrow> snake \<Rightarrow> error + snake" where
  "grow_times 0 s = Inr s"
| "grow_times (Suc n) s = and_then (grow_head s) (grow_times n)"

text \<open>
  \<open>int(MAX_X / 2)\<close> truncates the float quotient; for the positive constants here
  that is the integer quotient.
\<close>

definition Snake_init :: "error + snake" where
  "Snake_init =
     (let x = MAX_X div 2;
          y = MAX_Y div 2;
          head = Segment_init\<lparr>text' := ''8'', position := (x, y), velocity := (1, 0)\<rparr>
      in grow_times SEGMENTS \<lparr>body = [] @ [head]\<rparr>)"

subsection \<open>The services\<close>

text \<open>
  What \<open>window.getch()\<close> returns, as far as \<open>get_direction\<close> tells values apart:
  the four arrow keys, escape, and everything else (another key, or the timeout).
\<close>

datatype key = KEY_UP | KEY_RIGHT | KEY_DOWN | KEY_LEFT | ESC | OtherKey

record input_service =
  directions :: "key \<rightharpoonup> int \<times> int"
  current :: "int \<times> int"

definition InputService_init :: input_service where
  "InputService_init =
     \<lparr>directions = [KEY_UP \<mapsto> (0, -1), KEY_RIGHT \<mapsto> (1, 0),
                     KEY_DOWN \<mapsto> (0, 1), KEY_LEFT \<mapsto> (-1, 0)],
      current = (1, 0)\<rparr>"

definition get_direction :: "input_service \<Rightarrow> key \<Rightarrow> error + (int \<times> int) \<times> input_service" where
  "get_direction i k =
     (if k = ESC then Inl SystemExit
      else let c = (case directions i k of None \<Rightarrow> current i | Some d \<Rightarrow> d)
           in Inr (c, i\<lparr>current := c\<rparr>))"

text \<open>
  The window of the output service is the list of the frames drawn so far; a frame
  is the list of the \<open>addstr(row, column, text)\<close> calls between \<open>clear\<close> and
  \<open>refresh\<close>, one for each actor: the column is the \<open>x\<close> of its position, the row
  the \<open>y\<close>.
\<close>

type_synonym frame = "(int \<times> int \<times> string) list"

record output_service =
  window :: "frame list"

definition OutputService_init :: output_service where
  "OutputService_init = \<lparr>window = []\<rparr>"

definition addstr_call :: "actor \<Rightarrow> int \<times> int \<times> string" where
  "addstr_call a = (snd (position a), fst (position a), text' a)"

definition draw_actors :: "output_service \<Rightarrow> actor list \<Rightarrow> output_service" where
  "draw_actors out actors = out\<lparr>window := window out @ [map addstr_call actors]\<rparr>"

subsection \<open>Game\<close>

text \<open>
  The fields of \<open>Game\<close>, and with them the state of the module-level random
  generator, which \<open>Food\<close> reads.
\<close>

record game =
  snake :: snake
  food :: actor
  score :: score
  input_service :: input_service
  output_service :: output_service
  keep_playing :: bool
  random :: rng

definition Game_init :: "input_service \<Rightarrow> output_service \<Rightarrow> rng \<Rightarrow> error + game" where
  "Game_init inp out r =
     and_then Snake_init (\<lambda>s.
       let (f, r1) = Food_init r
       in Inr \<lparr>snake = s, food = f, score = Score_init, input_service = inp,
               output_service = out, keep_playing = True, random = r1\<rparr>)"

definition get_inputs :: "game \<Rightarrow> key \<Rightarrow> error + game" where
  "get_inputs g k =
     and_then (get_direction (input_service g) k) (\<lambda>(direction, inp).
       and_then (Snake_move_next (snake g) direction) (\<lambda>s.
         Inr (g\<lparr>input_service := inp, snake := s\<rparr>)))"

definition do_outputs :: "game \<Rightarrow> error + game" where
  "do_outputs g =
     and_then (get_head (snake g)) (\<lambda>head.
       let actors = [food g, actor.truncate (score g)] @ [head] @ get_body (snake g)
       in Inr (g\<lparr>output_service := draw_actors (output_service g) actors\<rparr>))"

definition update_score :: "game \<Rightarrow> error + game" where
  "update_score g =
     and_then (get_head (snake g)) (\<lambda>head.
       if same_position_as head (position (food g)) then
         and_then (grow_head (snake g)) (\<lambda>s.
           let (f, r) = move_random (food g) (random g)
           in Inr (g\<lparr>snake := s, score := add_points (score g) 1, food := f, random := r\<rparr>))
       else Inr g)"

text \<open>The \<open>for\<close> loop of \<open>_update_snake\<close>, with its \<open>break\<close>, over the flag.\<close>

fun update_snake_loop :: "actor \<Rightarrow> actor list \<Rightarrow> bool \<Rightarrow> bool" where
  "update_snake_loop head [] kp = kp"
| "update_snake_loop head (segment # segments) kp =
     (if same_position_as head (position segment) then False
      else update_snake_loop head segments kp)"

definition update_snake :: "game \<Rightarrow> error + game" where
  "update_snake g =
     and_then (get_head (snake g)) (\<lambda>head.
       Inr (g\<lparr>keep_playing := update_snake_loop head (get_body (snake g)) (keep_playing g)\<rparr>))"

text \<open>One pass through the body of the \<open>while\<close> loop of \<open>play\<close>.\<close>

definition tick :: "game \<Rightarrow> key \<Rightarrow> error + game" where
  "tick g k =
     and_then (get_inputs g k) (\<lambda>g1.
       and_then (update_snake g1) (\<lambda>g2.
         and_then (update_score g2) do_outputs))"

text \<open>
  \<open>play\<close> on the keys that \<open>getch\<close> delivers, one for each pass. The loop leaves
  when the flag is down; an exception ends it; when the keys are used up the
  game is still waiting for the next one and the state reached is returned.
\<close>

fun play :: "game \<Rightarrow> key list \<Rightarrow> error + game" where
  "play g [] = Inr g"
| "play g (k # ks) =
     (if keep_playing g then and_then (tick g k) (\<lambda>g'. play g' ks) else Inr g)"

text \<open>The entry point: the two services, the game, then \<open>play\<close>.\<close>

definition main :: "rng \<Rightarrow> key list \<Rightarrow> error + game" where
  "main r ks =
     and_then (Game_init InputService_init OutputService_init r) (\<lambda>g. play g ks)"

subsection \<open>The vocabulary of the specification\<close>

text \<open>
  The interior of the bordered grid, the four unit velocities and the opposite of
  a velocity.
\<close>

definition interior :: "int \<times> int \<Rightarrow> bool" where
  "interior p =
     (1 \<le> fst p \<and> fst p \<le> MAX_X - 2 \<and> 1 \<le> snd p \<and> snd p \<le> MAX_Y - 2)"

definition unit_velocity :: "int \<times> int \<Rightarrow> bool" where
  "unit_velocity v = (v = (0, -1) \<or> v = (1, 0) \<or> v = (0, 1) \<or> v = (-1, 0))"

definition opposite :: "int \<times> int \<Rightarrow> int \<times> int" where
  "opposite v = (- fst v, - snd v)"

text \<open>
  The two conditions of a tick, read on the state that the input phase leaves:
  the head lies on the food; the head lies on a segment of \<open>get_body\<close>.
\<close>

definition feeding_condition :: "game \<Rightarrow> bool" where
  "feeding_condition g =
     (case get_head (snake g) of
        Inl e \<Rightarrow> False
      | Inr head \<Rightarrow> same_position_as head (position (food g)))"

definition collision_condition :: "game \<Rightarrow> bool" where
  "collision_condition g =
     (case get_head (snake g) of
        Inl e \<Rightarrow> False
      | Inr head \<Rightarrow> list_ex (\<lambda>segment. same_position_as head (position segment))
                    (get_body (snake g)))"

text \<open>A condition read on the state that the input phase of a tick leaves.\<close>

definition after_inputs :: "(game \<Rightarrow> bool) \<Rightarrow> game \<Rightarrow> key \<Rightarrow> bool" where
  "after_inputs P g k = (case get_inputs g k of Inl e \<Rightarrow> False | Inr g1 \<Rightarrow> P g1)"

text \<open>The frame that shows a game: food, score, head, body, in that order.\<close>

definition render_frame :: "game \<Rightarrow> frame" where
  "render_frame g =
     map addstr_call (food g # actor.truncate (score g) # body (snake g))"

text \<open>
  A call that writes into the interior, and a frame all of whose calls do so but
  the second, the score's, which writes at row 0, column 1.
\<close>

definition call_inside :: "int \<times> int \<times> string \<Rightarrow> bool" where
  "call_inside c = interior (fst (snd c), fst c)"

definition frame_inside :: "frame \<Rightarrow> bool" where
  "frame_inside fr =
     (case fr of
        food_call # score_call # snake_calls \<Rightarrow>
          call_inside food_call \<and> fst score_call = 0 \<and> fst (snd score_call) = 1
          \<and> snake_calls \<noteq> [] \<and> list_all call_inside snake_calls
      | _ \<Rightarrow> False)"

text \<open>
  A snake heads in direction \<open>d\<close> when that is the velocity of its head and the
  head is one move in that direction away from the segment behind it.
\<close>

definition heading :: "snake \<Rightarrow> int \<times> int \<Rightarrow> bool" where
  "heading s d =
     (case body s of
        h # neck # rest \<Rightarrow>
          velocity h = d \<and> interior (position neck)
          \<and> position h = position (Actor_move_next (neck\<lparr>velocity := d\<rparr>))
      | _ \<Rightarrow> False)"

text \<open>
  A game is steered when its snake, of at least three segments, heads in the
  current direction of the input service, a unit velocity, and the key table is
  the one the service was built with.
\<close>

definition steered :: "game \<Rightarrow> bool" where
  "steered g =
     (heading (snake g) (current (input_service g))
      \<and> unit_velocity (current (input_service g))
      \<and> 3 \<le> length (body (snake g))
      \<and> directions (input_service g) = directions InputService_init)"

text \<open>
  What every game of a session satisfies: the snake has a head, all its
  segments and the food lie in the interior, the score sits at \<open>(1, 0)\<close>.
\<close>

definition well_placed :: "game \<Rightarrow> bool" where
  "well_placed g =
     (body (snake g) \<noteq> []
      \<and> list_all (\<lambda>a. interior (position a)) (body (snake g))
      \<and> interior (position (food g))
      \<and> position (score g) = (1, 0))"

text \<open>
  The tick as the specification orders its phases (input, score and feed,
  collision, render), to be compared with \<open>tick\<close>.
\<close>

definition tick_feeding_first :: "game \<Rightarrow> key \<Rightarrow> error + game" where
  "tick_feeding_first g k =
     and_then (get_inputs g k) (\<lambda>g1.
       and_then (update_score g1) (\<lambda>g2.
         and_then (update_snake g2) do_outputs))"

text \<open>A run of ordinary moves, one for each direction of the list.\<close>

fun Snake_moves :: "snake \<Rightarrow> (int \<times> int) list \<Rightarrow> error + snake" where
  "Snake_moves s [] = Inr s"
| "Snake_moves s (d # ds) = and_then (Snake_move_next s d) (\<lambda>s'. Snake_moves s' ds)"

text \<open>The segment that \<open>grow_head\<close> builds for the cell the head leaves.\<close>

definition new_segment :: "int \<times> int \<Rightarrow> actor" where
  "new_segment p = Segment_init\<lparr>text' := ''#'', position := p\<rparr>"

subsection \<open>A session\<close>

text \<open>
  The game that the constructor builds when the first two draws are 39 and 9:
  the snake lies on row 10 from column 40 back to column 30 and the food has
  landed at \<open>(40, 10)\<close>, under the head.
\<close>

definition opening_game :: game where
  "opening_game =
     \<lparr>snake = \<lparr>body = \<lparr>text' = ''8'', position = (40, 10), velocity = (1, 0)\<rparr> #
         map new_segment [(39, 10), (38, 10), (37, 10), (36, 10), (35, 10),
                          (34, 10), (33, 10), (32, 10), (31, 10), (30, 10)]\<rparr>,
      food = \<lparr>text' = ''@'', position = (40, 10), velocity = (0, 0)\<rparr>,
      score = \<lparr>text' = ''Score: 0'', position = (1, 0), velocity = (0, 0), points = 0\<rparr>,
      input_service = InputService_init,
      output_service = OutputService_init,
      keep_playing = True,
      random = \<lparr>draws = []\<rparr>\<rparr>"

text \<open>The same game one tick later, after the up arrow.\<close>

definition turned_game :: game where
  "turned_game =
     \<lparr>snake = \<lparr>body = \<lparr>text' = ''8'', position = (40, 9), velocity = (0, - 1)\<rparr> #
         map new_segment [(40, 10), (39, 10), (38, 10), (37, 10), (36, 10),
                          (35, 10), (34, 10), (33, 10), (32, 10), (31, 10)]\<rparr>,
      food = \<lparr>text' = ''@'', position = (40, 10), velocity = (0, 0)\<rparr>,
      score = \<lparr>text' = ''Score: 0'', position = (1, 0), velocity = (0, 0), points = 0\<rparr>,
      input_service = InputService_init\<lparr>current := (0, - 1)\<rparr>,
      output_service = \<lparr>window =
        [[(10, 40, ''@''), (0, 1, ''Score: 0''), (9, 40, ''8''), (10, 40, ''#''),
          (10, 39, ''#''), (10, 38, ''#''), (10, 37, ''#''), (10, 36, ''#''),
          (10, 35, ''#''), (10, 34, ''#''), (10, 33, ''#''), (10, 32, ''#''),
          (10, 31, ''#'')]]\<rparr>,
      keep_playing = True,
      random = \<lparr>draws = []\<rparr>\<rparr>"

text \<open>
  And one more tick later, after the down arrow: the head has gone back onto
  the food and onto its own body.
\<close>

definition ended_game :: game where
  "ended_game =
     \<lparr>snake = \<lparr>body = \<lparr>text' = ''8'', position = (40, 11), velocity = (0, 1)\<rparr> #
         map new_segment [(40, 10), (40, 9), (40, 10), (39, 10), (38, 10), (37, 10),
                          (36, 10), (35, 10), (34, 10), (33, 10), (32, 10)]\<rparr>,
      food = \<lparr>text' = ''@'', position = (1, 1), velocity = (0, 0)\<rparr>,
      score = \<lparr>text' = ''Score: 1'', position = (1, 0), velocity = (0, 0), points = 1\<rparr>,
      input_service = InputService_init\<lparr>current := (0, 1)\<rparr>,
      output_service = \<lparr>window =
        [[(10, 40, ''@''), (0, 1, ''Score: 0''), (9, 40, ''8''), (10, 40, ''#''),
          (10, 39, ''#''), (10, 38, ''#''), (10, 37, ''#''), (10, 36, ''#''),
          (10, 35, ''#''), (10, 34, ''#''), (10, 33, ''#''), (10, 32, ''#''),
          (10, 31, ''#'')],
         [(1, 1, ''@''), (0, 1, ''Score: 1''), (11, 40, ''8''), (10, 40, ''#''),
          (9, 40, ''#''), (10, 40, ''#''), (10, 39, ''#''), (10, 38, ''#''),
          (10, 37, ''#''), (10, 36, ''#''), (10, 35, ''#''), (10, 34, ''#''),
          (10, 33, ''#''), (10, 32, ''#'')]]\<rparr>,
      keep_playing = False,
      random = \<lparr>draws = []\<rparr>\<rparr>"

section \<open>Properties\<close>

subsection \<open>The movement primitive\<close>

lemma position_move_next:
  "position (Actor_move_next a) =
     (1 + (fst (position a) + fst (velocity a) - 1) mod 58,
      1 + (snd (position a) + snd (velocity a) - 1) mod 18)"
  by (simp add: Actor_move_next_def MAX_X_def MAX_Y_def Let_def)

lemma velocity_move_next [simp]: "velocity (Actor_move_next a) = velocity a"
  by (simp add: Actor_move_next_def Let_def)

lemma text_move_next [simp]: "text' (Actor_move_next a) = text' a"
  by (simp add: Actor_move_next_def Let_def)

lemma more_move_next [simp]: "actor.more (Actor_move_next a) = actor.more a"
  by (simp add: Actor_move_next_def Let_def)

lemma interior_iff:
  "interior p \<longleftrightarrow> 1 \<le> fst p \<and> fst p \<le> 58 \<and> 1 \<le> snd p \<and> snd p \<le> 18"
  by (simp add: interior_def MAX_X_def MAX_Y_def)

lemma mod_58_le: "(i::int) mod 58 \<le> 57"
  using pos_mod_bound [of 58 i] by linarith

lemma mod_18_le: "(i::int) mod 18 \<le> 17"
  using pos_mod_bound [of 18 i] by linarith

lemma interior_move_next [simp]: "interior (position (Actor_move_next a))"
  by (simp add: interior_iff position_move_next mod_58_le mod_18_le)

text \<open>
  C4. Whatever the position and the velocity, one call of \<open>move_next\<close> sets each
  axis to \<open>1 + ((old + delta - 1) mod (DIM - 2))\<close>, and the result lies in the
  interior: \<open>x\<close> in \<open>[1, 58]\<close>, \<open>y\<close> in \<open>[1, 18]\<close>.
\<close>

theorem move_next_wraps_into_interior:
  "position (Actor_move_next a) =
     (1 + (fst (position a) + fst (velocity a) - 1) mod (MAX_X - 2),
      1 + (snd (position a) + snd (velocity a) - 1) mod (MAX_Y - 2))
   \<and> 1 \<le> fst (position (Actor_move_next a))
   \<and> fst (position (Actor_move_next a)) \<le> MAX_X - 2
   \<and> 1 \<le> snd (position (Actor_move_next a))
   \<and> snd (position (Actor_move_next a)) \<le> MAX_Y - 2
   \<and> MAX_X - 2 = 58 \<and> MAX_Y - 2 = 18"
proof -
  have "interior (position (Actor_move_next a))"
    by simp
  then show ?thesis
    by (simp add: interior_def position_move_next MAX_X_def MAX_Y_def)
qed

theorem move_next_wraps_into_interior_witness:
  "position (Actor_move_next
      \<lparr>text' = ''8'', position = (5, 7), velocity = (- 1000000, 999)\<rparr>) = (41, 16)"
  using move_next_wraps_into_interior
    [of "\<lparr>text' = ''8'', position = (5, 7), velocity = (- 1000000, 999)\<rparr>"]
  by (simp add: MAX_X_def MAX_Y_def)

subsection \<open>The torus\<close>

lemma velocity_funpow_move_next [simp]: "velocity ((Actor_move_next ^^ n) a) = velocity a"
  by (induction n) simp_all

lemma text_funpow_move_next [simp]: "text' ((Actor_move_next ^^ n) a) = text' a"
  by (induction n) simp_all

lemma more_funpow_move_next [simp]: "actor.more ((Actor_move_next ^^ n) a) = actor.more a"
  by (induction n) simp_all

text \<open>After \<open>n > 0\<close> calls each axis has advanced by \<open>n\<close> times its delta.\<close>

lemma position_funpow_move_next:
  "0 < n \<Longrightarrow> position ((Actor_move_next ^^ n) a) =
     (1 + (fst (position a) - 1 + int n * fst (velocity a)) mod 58,
      1 + (snd (position a) - 1 + int n * snd (velocity a)) mod 18)"
proof (induction n)
  case 0
  then show ?case by simp
next
  case (Suc n)
  show ?case
  proof (cases "n = 0")
    case True
    then show ?thesis by (simp add: position_move_next algebra_simps)
  next
    case False
    then have IH: "position ((Actor_move_next ^^ n) a) =
     (1 + (fst (position a) - 1 + int n * fst (velocity a)) mod 58,
      1 + (snd (position a) - 1 + int n * snd (velocity a)) mod 18)"
      using Suc.IH by simp
    have step: "\<And>p v m. ((1 + (p - 1 + int n * v) mod m) + v - 1) mod m
        = (p - 1 + (int n + 1) * v) mod (m::int)"
      by (simp add: algebra_simps mod_simps)
    show ?thesis
      using step [of "fst (position a)" "fst (velocity a)" 58]
            step [of "snd (position a)" "snd (velocity a)" 18]
      by (simp add: position_move_next IH algebra_simps)
  qed
qed

lemma interior_area_moves:
  assumes "interior (position a)"
  shows "(Actor_move_next ^^ nat ((MAX_X - 2) * (MAX_Y - 2))) a = a"
proof -
  have n: "nat ((MAX_X - 2) * (MAX_Y - 2)) = 1044"
    by (simp add: MAX_X_def MAX_Y_def)
  have x: "(fst (position a) - 1 + 1044 * fst (velocity a)) mod 58 = fst (position a) - 1"
  proof -
    have "(fst (position a) - 1 + 58 * (18 * fst (velocity a))) mod 58
        = (fst (position a) - 1) mod 58"
      by (simp only: mod_mult_self2)
    then show ?thesis using assms by (simp add: interior_iff)
  qed
  have y: "(snd (position a) - 1 + 1044 * snd (velocity a)) mod 18 = snd (position a) - 1"
  proof -
    have "(snd (position a) - 1 + 18 * (58 * snd (velocity a))) mod 18
        = (snd (position a) - 1) mod 18"
      by (simp only: mod_mult_self2)
    then show ?thesis using assms by (simp add: interior_iff)
  qed
  have "position ((Actor_move_next ^^ 1044) a) = position a"
    by (simp add: position_funpow_move_next x y)
  then show ?thesis
    by (simp add: n actor.equality)
qed

text \<open>
  C3, as stated, fails: from the interior corner \<open>(1, 1)\<close> with velocity \<open>(1, 0)\<close>,
  \<open>GRID_WIDTH * GRID_HEIGHT = 1200\<close> calls of \<open>move_next\<close> end at \<open>(41, 1)\<close>. A
  row of the torus has 58 cells and 1200 is not a multiple of 58.
\<close>

theorem torus_closure_1200_counterexample:
  "interior (1, 1) \<and> unit_velocity (1, 0) \<and> nat (MAX_X * MAX_Y) = 1200
   \<and> position ((Actor_move_next ^^ nat (MAX_X * MAX_Y))
         \<lparr>text' = ''8'', position = (1, 1), velocity = (1, 0)\<rparr>) = (41, 1)"
  by (simp add: position_funpow_move_next MAX_X_def MAX_Y_def interior_def unit_velocity_def)

text \<open>
  C3, amended. For every interior position and each of the four unit velocities,
  \<open>(GRID_WIDTH - 2) * (GRID_HEIGHT - 2) = 58 * 18 = 1044\<close> calls of \<open>move_next\<close>
  bring the actor back to where it was.
\<close>

theorem torus_closure:
  assumes "interior (position a)" and "unit_velocity (velocity a)"
  shows "(Actor_move_next ^^ nat ((MAX_X - 2) * (MAX_Y - 2))) a = a
         \<and> nat ((MAX_X - 2) * (MAX_Y - 2)) = 1044"
  using interior_area_moves [OF assms(1)] by (simp add: MAX_X_def MAX_Y_def)

theorem torus_closure_witness:
  "interior (58, 18) \<and> unit_velocity (0, - 1)
   \<and> (Actor_move_next ^^ 1044) \<lparr>text' = ''8'', position = (58, 18), velocity = (0, - 1)\<rparr>
       = \<lparr>text' = ''8'', position = (58, 18), velocity = (0, - 1)\<rparr>"
proof -
  have i: "interior (position \<lparr>text' = ''8'', position = (58, 18), velocity = (0, - 1)\<rparr>)"
    by (simp add: interior_iff)
  have u: "unit_velocity (velocity \<lparr>text' = ''8'', position = (58, 18), velocity = (0, - 1)\<rparr>)"
    by (simp add: unit_velocity_def)
  have "(Actor_move_next ^^ 1044) \<lparr>text' = ''8'', position = (58, 18), velocity = (0, - 1)\<rparr>
      = \<lparr>text' = ''8'', position = (58, 18), velocity = (0, - 1)\<rparr>"
    using torus_closure [OF i u] by metis
  then show ?thesis
    using i u by simp
qed

subsection \<open>The snake\<close>

lemma get_head_Cons [simp]: "body s = h # t \<Longrightarrow> get_head s = Inr h"
  by (simp add: get_head_def)

lemma get_head_Nil [simp]: "body s = [] \<Longrightarrow> get_head s = Inl IndexError"
  by (simp add: get_head_def)

lemma get_body_Cons [simp]: "body s = h # t \<Longrightarrow> get_body s = t"
  by (simp add: get_body_def)

lemma grow_head_Cons:
  "body s = h # t \<Longrightarrow>
   grow_head s = Inr (s\<lparr>body := Actor_move_next h # new_segment (position h) # t\<rparr>)"
  by (simp add: grow_head_def new_segment_def Let_def)

lemma Snake_move_next_Cons:
  "body s = h # t \<Longrightarrow>
   Snake_move_next s d =
     Inr (s\<lparr>body := Actor_move_next (h\<lparr>velocity := d\<rparr>) #
                 butlast (new_segment (position h) # t)\<rparr>)"
  by (simp add: Snake_move_next_def grow_head_Cons trim_tail_def)

lemma Snake_move_next_length:
  assumes "body s \<noteq> []"
  shows "\<exists>s'. Snake_move_next s d = Inr s' \<and> length (body s') = length (body s)"
proof -
  obtain h t where "body s = h # t"
    using assms by (cases "body s") auto
  then show ?thesis
    by (simp add: Snake_move_next_Cons)
qed

lemma Snake_moves_length:
  "body s \<noteq> [] \<Longrightarrow> \<exists>s'. Snake_moves s ds = Inr s' \<and> length (body s') = length (body s)"
proof (induction ds arbitrary: s)
  case Nil
  then show ?case by simp
next
  case (Cons d ds)
  from Snake_move_next_length [OF Cons.prems, of d]
  obtain s1 where s1: "Snake_move_next s d = Inr s1" "length (body s1) = length (body s)"
    by blast
  with Cons.prems have "body s1 \<noteq> []"
    by auto
  from Cons.IH [OF this] s1 show ?case
    by auto
qed

lemma grow_head_length:
  assumes "body s \<noteq> []"
  shows "\<exists>s'. grow_head s = Inr s' \<and> length (body s') = length (body s) + 1"
proof -
  obtain h t where "body s = h # t"
    using assms by (cases "body s") auto
  then show ?thesis
    by (simp add: grow_head_Cons)
qed

text \<open>
  C6. A chain of length \<open>L \<ge> 1\<close> keeps the length \<open>L\<close> through any number of
  ordinary moves (\<open>ds\<close> holds their directions); one \<open>grow_head\<close> without its
  \<open>trim_tail\<close> makes it \<open>L + 1\<close>, and the ordinary moves that follow (\<open>ds'\<close>) keep
  it there. None of the calls raises.
\<close>

theorem length_invariant:
  assumes "length (body s) = L" and "1 \<le> L"
  shows "\<exists>s1 s2 s3. Snake_moves s ds = Inr s1 \<and> length (body s1) = L
           \<and> grow_head s1 = Inr s2 \<and> length (body s2) = L + 1
           \<and> Snake_moves s2 ds' = Inr s3 \<and> length (body s3) = L + 1"
proof -
  from assms have ne: "body s \<noteq> []"
    by auto
  from Snake_moves_length [OF ne, of ds] assms
  obtain s1 where s1: "Snake_moves s ds = Inr s1" "length (body s1) = L"
    by auto
  with assms have "body s1 \<noteq> []"
    by auto
  from grow_head_length [OF this] s1
  obtain s2 where s2: "grow_head s1 = Inr s2" "length (body s2) = L + 1"
    by auto
  then have "body s2 \<noteq> []"
    by auto
  from Snake_moves_length [OF this, of ds'] s2
  obtain s3 where s3: "Snake_moves s2 ds' = Inr s3" "length (body s3) = L + 1"
    by auto
  from s1 s2 s3 show ?thesis
    by blast
qed

theorem length_invariant_witness:
  "length (body \<lparr>body = [\<lparr>text' = ''8'', position = (58, 18), velocity = (1, 0)\<rparr>]\<rparr>) = 1
   \<and> (\<exists>s1 s2 s3.
        Snake_moves \<lparr>body = [\<lparr>text' = ''8'', position = (58, 18), velocity = (1, 0)\<rparr>]\<rparr>
          [(1, 0), (0, 1)] = Inr s1 \<and> length (body s1) = 1
        \<and> grow_head s1 = Inr s2 \<and> length (body s2) = 2
        \<and> Snake_moves s2 [(- 1, 0)] = Inr s3 \<and> length (body s3) = 2)"
  using length_invariant
    [of "\<lparr>body = [\<lparr>text' = ''8'', position = (58, 18), velocity = (1, 0)\<rparr>]\<rparr>" 1
        "[(1, 0), (0, 1)]" "[(- 1, 0)]"]
  by (simp add: numeral_2_eq_2)

subsection \<open>The constructors\<close>

lemma Score_init_eq:
  "Score_init = \<lparr>text' = ''Score: 0'', position = (1, 0), velocity = (0, 0), points = 0\<rparr>"
  by code_simp

lemma Snake_init_eq:
  "Snake_init = Inr \<lparr>body = \<lparr>text' = ''8'', position = (40, 10), velocity = (1, 0)\<rparr> #
         map new_segment [(39, 10), (38, 10), (37, 10), (36, 10), (35, 10),
                          (34, 10), (33, 10), (32, 10), (31, 10), (30, 10)]\<rparr>"
  by code_simp

lemma Game_init_opening:
  "Game_init InputService_init OutputService_init \<lparr>draws = [39, 9]\<rparr> = Inr opening_game"
  by (simp add: Game_init_def Snake_init_eq Score_init_eq Food_init_def move_random_def
      randint_def MAX_X_def MAX_Y_def Actor_init_def opening_game_def)

text \<open>
  C5, as stated, fails: the constructor leaves the head at \<open>(40, 10)\<close>, ten
  \<open>grow_head\<close> calls to the right of the centre, so the first ordinary tick puts
  the head at \<open>(41, 10)\<close> and the new segment at \<open>(40, 10)\<close>, not at \<open>(31, 10)\<close>
  and \<open>(30, 10)\<close>.
\<close>

theorem first_tick_from_centre_counterexample:
  "Snake_init = Inr \<lparr>body = \<lparr>text' = ''8'', position = (40, 10), velocity = (1, 0)\<rparr> #
         map new_segment [(39, 10), (38, 10), (37, 10), (36, 10), (35, 10),
                          (34, 10), (33, 10), (32, 10), (31, 10), (30, 10)]\<rparr>
   \<and> Snake_move_next \<lparr>body = \<lparr>text' = ''8'', position = (40, 10), velocity = (1, 0)\<rparr> #
         map new_segment [(39, 10), (38, 10), (37, 10), (36, 10), (35, 10),
                          (34, 10), (33, 10), (32, 10), (31, 10), (30, 10)]\<rparr> (1, 0)
     = Inr \<lparr>body = \<lparr>text' = ''8'', position = (41, 10), velocity = (1, 0)\<rparr> #
         map new_segment [(40, 10), (39, 10), (38, 10), (37, 10), (36, 10), (35, 10),
                          (34, 10), (33, 10), (32, 10), (31, 10)]\<rparr>
   \<and> position \<lparr>text' = ''8'', position = (41, 10), velocity = (1, 0)\<rparr> \<noteq> (31, 10)
   \<and> position (new_segment (40, 10)) \<noteq> (30, 10)"
  by (simp add: Snake_init_eq Snake_move_next_Cons Actor_move_next_def MAX_X_def MAX_Y_def
      new_segment_def)

text \<open>
  C5, amended. The fresh snake has 11 segments, its head, heading right, at
  \<open>(40, 10)\<close> and its tail at \<open>(30, 10)\<close>, one segment on each cell between; the
  input service without a key pressed keeps the direction \<open>(1, 0)\<close>; after one
  ordinary move in that direction the head is at \<open>(41, 10)\<close>, the new body
  segment is at \<open>(40, 10)\<close>, the tail at \<open>(31, 10)\<close>, and the chain still has 11
  segments.
\<close>

theorem first_tick_of_fresh_snake:
  "\<exists>s0 s1. Snake_init = Inr s0 \<and> length (body s0) = 11
     \<and> position (body s0 ! 0) = (40, 10) \<and> velocity (body s0 ! 0) = (1, 0)
     \<and> position (last (body s0)) = (30, 10)
     \<and> map position (body s0) =
         [(40, 10), (39, 10), (38, 10), (37, 10), (36, 10), (35, 10),
          (34, 10), (33, 10), (32, 10), (31, 10), (30, 10)]
     \<and> get_direction InputService_init OtherKey = Inr ((1, 0), InputService_init)
     \<and> Snake_move_next s0 (1, 0) = Inr s1
     \<and> position (body s1 ! 0) = (41, 10) \<and> body s1 ! 1 = new_segment (40, 10)
     \<and> position (last (body s1)) = (31, 10)
     \<and> map position (body s1) =
         [(41, 10), (40, 10), (39, 10), (38, 10), (37, 10), (36, 10),
          (35, 10), (34, 10), (33, 10), (32, 10), (31, 10)]
     \<and> length (body s1) = 11"
  by (simp add: Snake_init_eq Snake_move_next_Cons position_move_next get_direction_def
      InputService_init_def Let_def new_segment_def)

subsection \<open>The phases of a tick\<close>

lemma and_then_Inr:
  "and_then m f = Inr y \<Longrightarrow> \<exists>x. m = Inr x \<and> f x = Inr y"
  by (cases m) simp_all

lemma update_snake_loop_eq:
  "update_snake_loop h segs kp =
     (if list_ex (\<lambda>segment. same_position_as h (position segment)) segs then False else kp)"
  by (induction segs) simp_all

lemma get_inputs_Inr:
  assumes "get_inputs g k = Inr g1"
  shows "\<exists>h t d i'. body (snake g) = h # t
           \<and> get_direction (input_service g) k = Inr (d, i')
           \<and> g1 = g\<lparr>input_service := i',
                     snake := (snake g)\<lparr>body := Actor_move_next (h\<lparr>velocity := d\<rparr>) #
                                 butlast (new_segment (position h) # t)\<rparr>\<rparr>"
proof (cases "get_direction (input_service g) k")
  case (Inl e)
  with assms show ?thesis
    by (simp add: get_inputs_def)
next
  case (Inr p)
  obtain d i' where p: "p = (d, i')"
    by (cases p)
  show ?thesis
  proof (cases "body (snake g)")
    case Nil
    with assms Inr p show ?thesis
      by (simp add: get_inputs_def Snake_move_next_def)
  next
    case (Cons h t)
    with assms Inr p show ?thesis
      by (auto simp add: get_inputs_def Snake_move_next_Cons)
  qed
qed

lemma get_inputs_body:
  assumes "get_inputs g k = Inr g1"
  shows "\<exists>h t. body (snake g1) = h # t \<and> length (body (snake g1)) = length (body (snake g))
          \<and> food g1 = food g \<and> score g1 = score g \<and> keep_playing g1 = keep_playing g
          \<and> output_service g1 = output_service g \<and> random g1 = random g"
  using get_inputs_Inr [OF assms] by auto

lemma update_snake_Cons:
  "body (snake g) = h # t \<Longrightarrow>
   update_snake g = Inr (g\<lparr>keep_playing :=
     (if collision_condition g then False else keep_playing g)\<rparr>)"
  by (simp add: update_snake_def collision_condition_def update_snake_loop_eq)

lemma update_score_Cons:
  "body (snake g) = h # t \<Longrightarrow>
   update_score g =
     (if feeding_condition g
      then Inr (g\<lparr>snake := (snake g)\<lparr>body := Actor_move_next h # new_segment (position h) # t\<rparr>,
                   score := add_points (score g) 1,
                   food := fst (move_random (food g) (random g)),
                   random := snd (move_random (food g) (random g))\<rparr>)
      else Inr g)"
  by (simp add: update_score_def feeding_condition_def grow_head_Cons split_beta)

lemma do_outputs_Cons:
  "body (snake g) = h # t \<Longrightarrow>
   do_outputs g = Inr (g\<lparr>output_service :=
     draw_actors (output_service g) (food g # actor.truncate (score g) # h # t)\<rparr>)"
  by (simp add: do_outputs_def)

lemma points_add_points [simp]: "points (add_points s p) = points s + p"
  by (simp add: add_points_def Let_def)

lemma position_add_points [simp]: "position (add_points s p) = position s"
  by (simp add: add_points_def Let_def)

lemma window_draw_actors:
  "window (draw_actors out actors) = window out @ [map addstr_call actors]"
  by (simp add: draw_actors_def)

lemma tick_after_inputs:
  assumes "get_inputs g k = Inr g1"
  shows "\<exists>g2 g3 g4. update_snake g1 = Inr g2
           \<and> g2 = g1\<lparr>keep_playing := (if collision_condition g1 then False else keep_playing g)\<rparr>
           \<and> update_score g2 = Inr g3
           \<and> keep_playing g3 = keep_playing g2
           \<and> points (score g3) = points (score g) + (if feeding_condition g1 then 1 else 0)
           \<and> length (body (snake g3)) =
               length (body (snake g)) + (if feeding_condition g1 then 1 else 0)
           \<and> do_outputs g3 = Inr g4
           \<and> g4 = g3\<lparr>output_service :=
                  \<lparr>window = window (output_service g) @ [render_frame g3]\<rparr>\<rparr>
           \<and> tick g k = Inr g4"
proof -
  from get_inputs_body [OF assms] obtain h t where
    b: "body (snake g1) = h # t" and o: "output_service g1 = output_service g"
    and l: "length (body (snake g1)) = length (body (snake g))"
    and s: "score g1 = score g" and kp: "keep_playing g1 = keep_playing g"
    by auto
  let ?g2 = "g1\<lparr>keep_playing := (if collision_condition g1 then False else keep_playing g)\<rparr>"
  have u: "update_snake g1 = Inr ?g2"
    by (simp add: update_snake_Cons [OF b] kp)
  have b2: "body (snake ?g2) = h # t"
    using b by simp
  have f2: "feeding_condition ?g2 = feeding_condition g1"
    using b by (simp add: feeding_condition_def)
  obtain g3 where g3: "update_score ?g2 = Inr g3"
    by (cases "feeding_condition g1") (simp_all add: update_score_Cons [OF b2] f2)
  have k3: "keep_playing g3 = keep_playing ?g2"
    and p3: "points (score g3) = points (score g) + (if feeding_condition g1 then 1 else 0)"
    and l3: "length (body (snake g3)) =
               length (body (snake g)) + (if feeding_condition g1 then 1 else 0)"
    and o3: "output_service g3 = output_service g"
    and b3: "\<exists>h' t'. body (snake g3) = h' # t'"
    using g3 b o l s by (auto simp add: update_score_Cons [OF b2] f2 split: if_splits)
  from b3 obtain h' t' where b3': "body (snake g3) = h' # t'"
    by blast
  let ?g4 = "g3\<lparr>output_service := \<lparr>window = window (output_service g) @ [render_frame g3]\<rparr>\<rparr>"
  have g4: "do_outputs g3 = Inr ?g4"
    by (simp add: do_outputs_Cons [OF b3'] draw_actors_def render_frame_def b3' o3)
  have "tick g k = Inr ?g4"
    by (simp add: tick_def assms u g3 g4)
  with u g3 k3 p3 l3 g4 show ?thesis
    by blast
qed

lemma tick_Inr:
  assumes "tick g k = Inr g'"
  shows "\<exists>g1. get_inputs g k = Inr g1"
  using and_then_Inr [OF assms [unfolded tick_def]] by blast

lemma after_inputs_iff:
  "after_inputs P g k \<longleftrightarrow> (\<exists>g1. get_inputs g k = Inr g1 \<and> P g1)"
  by (cases "get_inputs g k") (simp_all add: after_inputs_def)

lemma tick_points:
  assumes "tick g k = Inr g'"
  shows "points (score g') =
     points (score g) + (if after_inputs feeding_condition g k then 1 else 0)"
proof -
  from tick_Inr [OF assms] obtain g1 where g1: "get_inputs g k = Inr g1"
    by blast
  from tick_after_inputs [OF g1] assms show ?thesis
    by (auto simp add: after_inputs_iff g1)
qed

lemma play_points:
  "play g ks = Inr g' \<Longrightarrow> points (score g) \<le> points (score g')"
proof (induction ks arbitrary: g)
  case Nil
  then show ?case by simp
next
  case (Cons k ks)
  show ?case
  proof (cases "keep_playing g")
    case False
    with Cons.prems show ?thesis by simp
  next
    case True
    with Cons.prems have "and_then (tick g k) (\<lambda>g'. play g' ks) = Inr g'"
      by simp
    from and_then_Inr [OF this] obtain g1 where
      t: "tick g k = Inr g1" and p: "play g1 ks = Inr g'"
      by blast
    from tick_points [OF t] have "points (score g) \<le> points (score g1)"
      by simp
    with Cons.IH [OF p] show ?thesis
      by simp
  qed
qed

lemma play_stopped [simp]: "\<not> keep_playing g \<Longrightarrow> play g ks = Inr g"
  by (cases ks) simp_all

lemma tick_opening:
  "tick opening_game KEY_UP = Inr turned_game"
  by (simp add: tick_def get_inputs_def get_direction_def InputService_init_def Let_def
      opening_game_def turned_game_def Snake_move_next_Cons update_snake_Cons
      collision_condition_def same_position_as_def new_segment_def update_score_Cons
      feeding_condition_def do_outputs_Cons draw_actors_def OutputService_init_def
      position_move_next actor.truncate_def Actor_move_next_def MAX_X_def MAX_Y_def
      Segment_init_def Actor_init_def addstr_call_def)

lemma str_1: "str 1 = ''1''"
  by code_simp

lemma tick_turned:
  "tick turned_game KEY_DOWN = Inr ended_game"
  by (simp add: tick_def get_inputs_def get_direction_def InputService_init_def Let_def
      ended_game_def turned_game_def Snake_move_next_Cons update_snake_Cons
      collision_condition_def same_position_as_def new_segment_def update_score_Cons
      feeding_condition_def do_outputs_Cons draw_actors_def OutputService_init_def
      position_move_next actor.truncate_def Actor_move_next_def MAX_X_def MAX_Y_def
      Segment_init_def Actor_init_def add_points_def str_1
      move_random_def randint_def addstr_call_def)

lemma play_opening:
  "play opening_game [KEY_UP, KEY_DOWN, KEY_LEFT] = Inr ended_game"
proof -
  have "keep_playing opening_game" "keep_playing turned_game" "\<not> keep_playing ended_game"
    by (simp_all add: opening_game_def turned_game_def ended_game_def)
  then show ?thesis
    by (simp add: tick_opening tick_turned)
qed

lemma turned_conditions:
  "after_inputs feeding_condition turned_game KEY_DOWN"
  "after_inputs collision_condition turned_game KEY_DOWN"
  by code_simp+

lemma opening_conditions:
  "\<not> after_inputs feeding_condition opening_game KEY_UP"
  "\<not> after_inputs collision_condition opening_game KEY_UP"
  by code_simp+

text \<open>
  C1, amended. In every tick in which the state left by the input phase has the
  head on the food and on a body segment, the collision phase is evaluated
  first, on that state, and lowers the flag; the feeding phase is evaluated
  second and fires as well: the score goes up by one and the snake grows by one
  segment. Both fire in that same tick, and the tick returns normally.
\<close>

theorem collision_phase_before_feeding_phase:
  assumes "after_inputs feeding_condition g k" and "after_inputs collision_condition g k"
  shows "\<exists>g1 g2 g3 g4. get_inputs g k = Inr g1
           \<and> update_snake g1 = Inr g2 \<and> g2 = g1\<lparr>keep_playing := False\<rparr>
           \<and> update_score g2 = Inr g3 \<and> \<not> keep_playing g3
           \<and> points (score g3) = points (score g) + 1
           \<and> length (body (snake g3)) = length (body (snake g)) + 1
           \<and> do_outputs g3 = Inr g4 \<and> tick g k = Inr g4
           \<and> \<not> keep_playing g4 \<and> points (score g4) = points (score g) + 1"
proof -
  from assms obtain g1 where g1: "get_inputs g k = Inr g1"
    and f: "feeding_condition g1" and c: "collision_condition g1"
    by (auto simp add: after_inputs_iff)
  from tick_after_inputs [OF g1] f c g1 show ?thesis
    by auto
qed

theorem collision_phase_before_feeding_phase_witness:
  "after_inputs feeding_condition turned_game KEY_DOWN
   \<and> after_inputs collision_condition turned_game KEY_DOWN
   \<and> tick turned_game KEY_DOWN = Inr ended_game
   \<and> \<not> keep_playing ended_game
   \<and> points (score ended_game) = points (score turned_game) + 1"
  using collision_phase_before_feeding_phase [OF turned_conditions] turned_conditions tick_turned
  by (auto simp add: ended_game_def turned_game_def)

text \<open>
  C1, as stated, fails on the order. In the session that opens with the draws
  39 and 9 and the keys up, down, the second tick brings the head back onto
  \<open>(40, 10)\<close>, where the food and a body segment lie. \<open>tick\<close> lowers the flag
  there. Were the feeding phase evaluated before the collision phase, the head
  would first grow on to \<open>(40, 11)\<close>, a free cell, and the flag would stay up.
\<close>

theorem feeding_before_collision_counterexample:
  "Game_init InputService_init OutputService_init \<lparr>draws = [39, 9]\<rparr> = Inr opening_game
   \<and> tick opening_game KEY_UP = Inr turned_game
   \<and> after_inputs feeding_condition turned_game KEY_DOWN
   \<and> after_inputs collision_condition turned_game KEY_DOWN
   \<and> map_sum id keep_playing (tick turned_game KEY_DOWN) = Inr False
   \<and> map_sum id keep_playing (tick_feeding_first turned_game KEY_DOWN) = Inr True"
proof -
  have "map_sum id keep_playing (tick_feeding_first turned_game KEY_DOWN) = Inr True"
    by code_simp
  then show ?thesis
    by (simp add: Game_init_opening tick_opening tick_turned turned_conditions ended_game_def)
qed

text \<open>
  C2, amended. In every tick in which the state left by the input phase has the
  head on a body segment, the flag \<open>keep_playing\<close> goes down and \<open>play\<close> runs no
  further tick, whatever keys follow. The score phase and the render phase of
  that tick still run after the collision is detected: the score goes up by one
  when the head is on the food, and one frame, showing the final state, is
  drawn.
\<close>

theorem collision_ends_game_after_tick:
  assumes "after_inputs collision_condition g k"
  shows "\<exists>g'. tick g k = Inr g' \<and> \<not> keep_playing g' \<and> play g' ks = Inr g'
           \<and> points (score g') =
               points (score g) + (if after_inputs feeding_condition g k then 1 else 0)
           \<and> window (output_service g') = window (output_service g) @ [render_frame g']"
proof -
  from assms obtain g1 where g1: "get_inputs g k = Inr g1" and c: "collision_condition g1"
    by (auto simp add: after_inputs_iff)
  from tick_after_inputs [OF g1] c obtain g' where
    t: "tick g k = Inr g'" and k: "\<not> keep_playing g'"
    and w: "window (output_service g') = window (output_service g) @ [render_frame g']"
    by (auto simp add: render_frame_def)
  from tick_points [OF t] t k w show ?thesis
    by simp
qed


theorem collision_ends_game_after_tick_witness:
  "after_inputs collision_condition turned_game KEY_DOWN
   \<and> tick turned_game KEY_DOWN = Inr ended_game
   \<and> \<not> keep_playing ended_game
   \<and> play ended_game [KEY_UP, KEY_LEFT] = Inr ended_game
   \<and> points (score ended_game) = points (score turned_game) + 1
   \<and> window (output_service ended_game)
       = window (output_service turned_game) @ [render_frame ended_game]"
  using collision_ends_game_after_tick [OF turned_conditions(2), of "[KEY_UP, KEY_LEFT]"]
    turned_conditions tick_turned
  by auto

text \<open>
  C2, as stated, fails on what follows the detection. In the same session the
  second tick detects the collision, and still the score goes from 0 to 1 and a
  second frame is drawn in that tick.
\<close>

theorem collision_tick_scores_and_renders_counterexample:
  "Game_init InputService_init OutputService_init \<lparr>draws = [39, 9]\<rparr> = Inr opening_game
   \<and> tick opening_game KEY_UP = Inr turned_game
   \<and> after_inputs collision_condition turned_game KEY_DOWN
   \<and> points (score turned_game) = 0
   \<and> length (window (output_service turned_game)) = 1
   \<and> map_sum id (points \<circ> score) (tick turned_game KEY_DOWN) = Inr 1
   \<and> map_sum id (length \<circ> window \<circ> output_service) (tick turned_game KEY_DOWN) = Inr 2"
proof -
  have "points (score turned_game) = 0" "length (window (output_service turned_game)) = 1"
    by (simp_all add: turned_game_def)
  moreover have "points (score ended_game) = 1"
    "length (window (output_service ended_game)) = 2"
    by (simp_all add: ended_game_def)
  ultimately show ?thesis
    by (simp add: Game_init_opening tick_opening tick_turned turned_conditions)
qed

text \<open>
  C9. Over any run of \<open>play\<close> the points do not decrease, and a tick adds exactly
  one point when the head, after the move, is on the food, and none otherwise.
\<close>

theorem score_never_decreases:
  "(play g ks = Inr g' \<longrightarrow> points (score g) \<le> points (score g'))
   \<and> (tick g k = Inr g'' \<longrightarrow>
        points (score g'') =
          points (score g) + (if after_inputs feeding_condition g k then 1 else 0))"
  using play_points [of g ks g'] tick_points [of g k g''] by blast

theorem score_never_decreases_witness:
  "play opening_game [KEY_UP, KEY_DOWN, KEY_LEFT] = Inr ended_game
   \<and> points (score opening_game) = 0 \<and> points (score ended_game) = 1
   \<and> tick opening_game KEY_UP = Inr turned_game
   \<and> \<not> after_inputs feeding_condition opening_game KEY_UP
   \<and> points (score turned_game) = points (score opening_game)
   \<and> tick turned_game KEY_DOWN = Inr ended_game
   \<and> after_inputs feeding_condition turned_game KEY_DOWN
   \<and> points (score ended_game) = points (score turned_game) + 1"
proof -
  have "points (score opening_game) = 0" "points (score ended_game) = 1"
    by (simp_all add: opening_game_def ended_game_def)
  then show ?thesis
    using score_never_decreases
        [of opening_game "[KEY_UP, KEY_DOWN, KEY_LEFT]" ended_game KEY_UP turned_game]
      score_never_decreases
        [of turned_game "[KEY_DOWN]" ended_game KEY_DOWN ended_game]
      play_opening tick_opening tick_turned turned_conditions(1) opening_conditions(1)
    by simp
qed

subsection \<open>Placement and rendering\<close>

lemma randint_range:
  assumes "a \<le> b"
  shows "a \<le> fst (randint a b r) \<and> fst (randint a b r) \<le> b"
proof -
  have m: "0 < b - a + 1"
    using assms by simp
  have bounds: "0 \<le> i mod (b - a + 1) \<and> i mod (b - a + 1) < b - a + 1" for i :: int
    using pos_mod_sign [OF m] pos_mod_bound [OF m] by simp
  show ?thesis
  proof (cases "draws r")
    case Nil
    with bounds [of 0] show ?thesis
      by (simp add: randint_def)
  next
    case (Cons n ns)
    with bounds [of "int n"] show ?thesis
      by (simp add: randint_def)
  qed
qed

lemma interior_move_random [simp]: "interior (position (fst (move_random f r)))"
  using randint_range [of 1 58 r] randint_range [of 1 18 "snd (randint 1 58 r)"]
  by (simp add: move_random_def split_beta interior_iff MAX_X_def MAX_Y_def)

lemma text_move_random [simp]: "text' (fst (move_random f r)) = text' f"
  by (simp add: move_random_def split_beta)

lemma move_random_reaches:
  assumes "interior p"
  shows "position (fst (move_random f \<lparr>draws = [nat (fst p - 1), nat (snd p - 1)]\<rparr>)) = p"
  using assms
  by (cases p) (simp add: move_random_def randint_def interior_iff MAX_X_def MAX_Y_def)

lemma interior_new_segment [simp]: "interior (position (new_segment p)) = interior p"
  by (simp add: new_segment_def)

lemma list_all_butlast: "list_all P xs \<Longrightarrow> list_all P (butlast xs)"
  by (induction xs) simp_all

lemma get_inputs_well_placed:
  assumes "get_inputs g k = Inr g1" and "well_placed g"
  shows "well_placed g1"
proof -
  from get_inputs_Inr [OF assms(1)] obtain h t d i' where
    b: "body (snake g) = h # t"
    and g1: "g1 = g\<lparr>input_service := i',
                     snake := (snake g)\<lparr>body := Actor_move_next (h\<lparr>velocity := d\<rparr>) #
                                 butlast (new_segment (position h) # t)\<rparr>\<rparr>"
    by blast
  from assms(2) b have "list_all (\<lambda>a. interior (position a)) (new_segment (position h) # t)"
    by (simp add: well_placed_def)
  from list_all_butlast [OF this] assms(2) show ?thesis
    by (simp add: well_placed_def g1)
qed

lemma tick_well_placed:
  assumes "tick g k = Inr g'" and "well_placed g"
  shows "well_placed g'
         \<and> window (output_service g') = window (output_service g) @ [render_frame g']"
proof -
  from tick_Inr [OF assms(1)] obtain g1 where g1: "get_inputs g k = Inr g1"
    by blast
  have w1: "well_placed g1"
    by (rule get_inputs_well_placed [OF g1 assms(2)])
  then obtain h t where b: "body (snake g1) = h # t"
    by (cases "body (snake g1)") (auto simp add: well_placed_def)
  from tick_after_inputs [OF g1] obtain g2 g3 where
    g2: "g2 = g1\<lparr>keep_playing := (if collision_condition g1 then False else keep_playing g)\<rparr>"
    and g3: "update_score g2 = Inr g3"
    and t: "tick g k = Inr (g3\<lparr>output_service :=
                  \<lparr>window = window (output_service g) @ [render_frame g3]\<rparr>\<rparr>)"
    by blast
  from t assms(1) have g': "g' = g3\<lparr>output_service :=
                  \<lparr>window = window (output_service g) @ [render_frame g3]\<rparr>\<rparr>"
    by simp
  have b2: "body (snake g2) = h # t"
    using b g2 by simp
  have w2: "well_placed g2"
    using w1 g2 by (simp add: well_placed_def)
  have w3: "well_placed g3"
  proof (cases "feeding_condition g2")
    case True
    with g3 have "g3 = g2\<lparr>snake := (snake g2)\<lparr>body := Actor_move_next h #
                          new_segment (position h) # t\<rparr>,
                   score := add_points (score g2) 1,
                   food := fst (move_random (food g2) (random g2)),
                   random := snd (move_random (food g2) (random g2))\<rparr>"
      by (simp add: update_score_Cons [OF b2])
    with w2 b2 show ?thesis
      by (simp add: well_placed_def)
  next
    case False
    with g3 have "g3 = g2"
      by (simp add: update_score_Cons [OF b2])
    with w2 show ?thesis
      by simp
  qed
  with g' show ?thesis
    by (simp add: well_placed_def render_frame_def)
qed

lemma render_frame_inside:
  assumes "well_placed g"
  shows "frame_inside (render_frame g)"
proof -
  from assms have "map addstr_call (body (snake g)) \<noteq> []"
    and "list_all call_inside (map addstr_call (body (snake g)))"
    by (simp_all add: well_placed_def list_all_iff call_inside_def addstr_call_def)
  with assms show ?thesis
    by (simp add: frame_inside_def render_frame_def well_placed_def call_inside_def
        addstr_call_def actor.truncate_def)
qed

lemma play_well_placed:
  "play g ks = Inr g' \<Longrightarrow> well_placed g \<Longrightarrow> list_all frame_inside (window (output_service g))
   \<Longrightarrow> well_placed g' \<and> list_all frame_inside (window (output_service g'))"
proof (induction ks arbitrary: g)
  case Nil
  then show ?case by simp
next
  case (Cons k ks)
  show ?case
  proof (cases "keep_playing g")
    case False
    with Cons.prems show ?thesis by simp
  next
    case True
    with Cons.prems have "and_then (tick g k) (\<lambda>g'. play g' ks) = Inr g'"
      by simp
    from and_then_Inr [OF this] obtain g1 where
      t: "tick g k = Inr g1" and p: "play g1 ks = Inr g'"
      by blast
    from tick_well_placed [OF t Cons.prems(2)] have w: "well_placed g1"
      and f: "window (output_service g1) = window (output_service g) @ [render_frame g1]"
      by simp_all
    from f Cons.prems(3) render_frame_inside [OF w]
    have "list_all frame_inside (window (output_service g1))"
      by simp
    from Cons.IH [OF p w this] show ?thesis .
  qed
qed

lemma Game_init_Inr:
  "\<exists>g. Game_init inp out r = Inr g \<and> well_placed g \<and> output_service g = out
     \<and> food g = fst (Food_init r) \<and> keep_playing g"
proof -
  have "interior (x, 10)" if "30 \<le> x" and "x \<le> 40" for x
    using that by (simp add: interior_iff)
  then show ?thesis
    by (simp add: Game_init_def Snake_init_eq split_beta well_placed_def Score_init_eq
        Food_init_def)
qed


lemma get_inputs_no_escape:
  assumes "body (snake g) \<noteq> []" and "k \<noteq> ESC"
  shows "\<exists>g1. get_inputs g k = Inr g1"
proof -
  obtain h t where "body (snake g) = h # t"
    using assms(1) by (cases "body (snake g)") auto
  with assms(2) show ?thesis
    by (simp add: get_inputs_def get_direction_def Let_def Snake_move_next_Cons)
qed

lemma tick_no_escape:
  assumes "body (snake g) \<noteq> []" and "k \<noteq> ESC"
  shows "\<exists>g'. tick g k = Inr g'"
proof -
  from get_inputs_no_escape [OF assms] obtain g1 where "get_inputs g k = Inr g1"
    by blast
  from tick_after_inputs [OF this] show ?thesis
    by blast
qed

lemma play_no_escape:
  "well_placed g \<Longrightarrow> ESC \<notin> set ks \<Longrightarrow> \<exists>g'. play g ks = Inr g'"
proof (induction ks arbitrary: g)
  case Nil
  then show ?case by simp
next
  case (Cons k ks)
  show ?case
  proof (cases "keep_playing g")
    case False
    then show ?thesis by simp
  next
    case True
    from Cons.prems have "body (snake g) \<noteq> []" "k \<noteq> ESC"
      by (auto simp add: well_placed_def)
    from tick_no_escape [OF this] obtain g1 where t: "tick g k = Inr g1"
      by blast
    from tick_well_placed [OF t Cons.prems(1)] have "well_placed g1"
      by simp
    from Cons.IH [OF this] Cons.prems(2) t True show ?thesis
      by simp
  qed
qed

lemma main_opening:
  "main \<lparr>draws = [39, 9]\<rparr> ks = play opening_game ks"
  by (simp add: main_def Game_init_opening)

text \<open>
  C7, amended. In every frame the game hands to the renderer, the food, the
  head and every body segment are written at an interior position; the score is
  written at \<open>(1, 0)\<close>, on the top border row. This holds for every draw of the
  generator and every run of keys, and a run without escape never raises.
\<close>

theorem rendered_frames_inside:
  "(ESC \<notin> set ks \<longrightarrow> (\<exists>g'. main r ks = Inr g'))
   \<and> (main r ks = Inr g \<longrightarrow> list_all frame_inside (window (output_service g)))"
proof -
  from Game_init_Inr [of InputService_init OutputService_init r] obtain g0 where
    g0: "Game_init InputService_init OutputService_init r = Inr g0" and w: "well_placed g0"
    and o: "output_service g0 = OutputService_init"
    by blast
  have m: "main r ks = play g0 ks"
    by (simp add: main_def g0)
  have "list_all frame_inside (window (output_service g0))"
    by (simp add: o OutputService_init_def)
  with play_well_placed [of g0 ks g, OF _ w] play_no_escape [OF w, of ks] m show ?thesis
    by auto
qed

theorem rendered_frames_inside_witness:
  "ESC \<notin> set [KEY_UP, KEY_DOWN, KEY_LEFT]
   \<and> main \<lparr>draws = [39, 9]\<rparr> [KEY_UP, KEY_DOWN, KEY_LEFT] = Inr ended_game
   \<and> list_all frame_inside (window (output_service ended_game))
   \<and> length (window (output_service ended_game)) = 2"
proof -
  have m: "main \<lparr>draws = [39, 9]\<rparr> [KEY_UP, KEY_DOWN, KEY_LEFT] = Inr ended_game"
    by (simp only: main_opening play_opening)
  have "length (window (output_service ended_game)) = 2"
    by (simp add: ended_game_def)
  with rendered_frames_inside
    [of "[KEY_UP, KEY_DOWN, KEY_LEFT]" "\<lparr>draws = [39, 9]\<rparr>" ended_game] m
  show ?thesis
    by simp
qed

text \<open>
  C7, as stated, fails for the score: the first frame of a session carries the
  score actor at position \<open>(1, 0)\<close>, row 0 of the window, which is a border
  cell.
\<close>

theorem score_on_border_counterexample:
  "main \<lparr>draws = [39, 9]\<rparr> [KEY_UP] = Inr turned_game
   \<and> position (actor.truncate (score turned_game)) = (1, 0)
   \<and> \<not> interior (1, 0)
   \<and> window (output_service turned_game) ! 0 ! 1 = (0, 1, ''Score: 0'')
   \<and> \<not> call_inside (0, 1, ''Score: 0'')"
proof -
  have "keep_playing opening_game"
    by (simp add: opening_game_def)
  then have "main \<lparr>draws = [39, 9]\<rparr> [KEY_UP] = Inr turned_game"
    by (simp add: main_opening tick_opening)
  then show ?thesis
    by (simp add: turned_game_def actor.truncate_def interior_iff call_inside_def)
qed

text \<open>
  C10. The constructor of \<open>Food\<close> is \<open>move_random\<close> on a fresh actor with the glyph
  \<open>@\<close>: the position lies in the interior, every interior position can come
  out, and the game takes the food as constructed, whatever cells the snake
  occupies. The relocation on consumption is the same \<open>move_random\<close>.
\<close>

theorem food_constructed_by_move_random:
  "Food_init r = move_random (Actor_init\<lparr>text' := ''@''\<rparr>) r
   \<and> interior (position (fst (Food_init r)))
   \<and> (interior p \<longrightarrow>
        position (fst (Food_init \<lparr>draws = [nat (fst p - 1), nat (snd p - 1)]\<rparr>)) = p)
   \<and> (Game_init inp out r = Inr g \<longrightarrow> food g = fst (Food_init r))
   \<and> (feeding_condition g' \<and> update_score g' = Inr g'' \<longrightarrow>
        food g'' = fst (move_random (food g') (random g')))"
proof -
  have "food g'' = fst (move_random (food g') (random g'))"
    if "feeding_condition g'" and "update_score g' = Inr g''"
  proof -
    from that(1) obtain h t where "body (snake g') = h # t"
      by (cases "body (snake g')") (simp_all add: feeding_condition_def)
    from update_score_Cons [OF this] that show ?thesis
      by auto
  qed
  moreover have "food g = fst (Food_init r)" if "Game_init inp out r = Inr g"
    using Game_init_Inr [of inp out r] that by auto
  ultimately show ?thesis
    using move_random_reaches [of p "Actor_init\<lparr>text' := ''@''\<rparr>"]
    by (simp add: Food_init_def)
qed


theorem food_constructed_by_move_random_witness:
  "interior (40, 10)
   \<and> position (fst (Food_init \<lparr>draws = [39, 9]\<rparr>)) = (40, 10)
   \<and> Game_init InputService_init OutputService_init \<lparr>draws = [39, 9]\<rparr> = Inr opening_game
   \<and> food opening_game = fst (Food_init \<lparr>draws = [39, 9]\<rparr>)
   \<and> get_head (snake opening_game)
       = Inr \<lparr>text' = ''8'', position = (40, 10), velocity = (1, 0)\<rparr>"
proof -
  have i: "interior (40, 10)"
    by (simp add: interior_iff)
  have h: "get_head (snake opening_game)
       = Inr \<lparr>text' = ''8'', position = (40, 10), velocity = (1, 0)\<rparr>"
    by (simp add: opening_game_def)
  note t = food_constructed_by_move_random
    [of "\<lparr>draws = [39, 9]\<rparr>" "(40, 10)" InputService_init OutputService_init opening_game]
  from t have "interior (40, 10) \<longrightarrow>
      position (fst (Food_init \<lparr>draws = [nat (fst ((40, 10) :: int \<times> int) - 1),
                                          nat (snd ((40, 10) :: int \<times> int) - 1)]\<rparr>))
        = (40, 10)"
    by blast
  with i have p: "position (fst (Food_init \<lparr>draws = [39, 9]\<rparr>)) = (40, 10)"
    by simp
  from t Game_init_opening have "food opening_game = fst (Food_init \<lparr>draws = [39, 9]\<rparr>)"
    by blast
  with i h p Game_init_opening show ?thesis
    by simp
qed

subsection \<open>Reversal\<close>

lemma wrap_back_58:
  assumes "1 \<le> x" and "x \<le> 58"
  shows "1 + (1 + (x + d - 1) mod 58 + - d - 1) mod 58 = (x::int)"
proof -
  have "(1 + (x + d - 1) mod 58 + - d - 1) mod 58 = ((x + d - 1) mod 58 - d) mod 58"
    by (simp add: algebra_simps)
  also have "\<dots> = (x + d - 1 - d) mod 58"
    by (simp only: mod_diff_left_eq)
  also have "\<dots> = x - 1"
    using assms by simp
  finally show ?thesis
    by simp
qed

lemma wrap_back_18:
  assumes "1 \<le> y" and "y \<le> 18"
  shows "1 + (1 + (y + d - 1) mod 18 + - d - 1) mod 18 = (y::int)"
proof -
  have "(1 + (y + d - 1) mod 18 + - d - 1) mod 18 = ((y + d - 1) mod 18 - d) mod 18"
    by (simp add: algebra_simps)
  also have "\<dots> = (y + d - 1 - d) mod 18"
    by (simp only: mod_diff_left_eq)
  also have "\<dots> = y - 1"
    using assms by simp
  finally show ?thesis
    by simp
qed

lemma move_back:
  assumes "interior (position neck)"
    and "position h = position (Actor_move_next (neck\<lparr>velocity := d\<rparr>))"
  shows "position (Actor_move_next (h\<lparr>velocity := opposite d\<rparr>)) = position neck"
  using assms wrap_back_58 [of "fst (position neck)" "fst d"]
    wrap_back_18 [of "snd (position neck)" "snd d"]
  by (simp add: position_move_next interior_iff opposite_def prod_eq_iff)

text \<open>
  C8. For every snake of at least three segments heading in a unit direction,
  a tick whose input is the opposite direction puts the head on the segment
  that was behind it: the collision condition holds after the input phase of
  that tick, and the tick ends with the flag \<open>keep_playing\<close> down.
\<close>

theorem reverse_direction_self_hit:
  assumes "heading (snake g) d" and "unit_velocity d" and "3 \<le> length (body (snake g))"
    and "get_direction (input_service g) k = Inr (opposite d, i')"
  shows "after_inputs collision_condition g k \<and> (\<exists>g'. tick g k = Inr g' \<and> \<not> keep_playing g')"
proof -
  from assms(1) obtain h neck others where b0: "body (snake g) = h # neck # others"
    and i: "interior (position neck)"
    and p: "position h = position (Actor_move_next (neck\<lparr>velocity := d\<rparr>))"
    by (auto simp add: heading_def split: list.splits)
  from assms(3) b0 obtain r rest where "others = r # rest"
    by (cases others) auto
  with b0 have b: "body (snake g) = h # neck # r # rest"
    by simp
  let ?h = "Actor_move_next (h\<lparr>velocity := opposite d\<rparr>)"
  let ?g1 = "g\<lparr>input_service := i',
               snake := (snake g)\<lparr>body := ?h # butlast (new_segment (position h) #
                  neck # r # rest)\<rparr>\<rparr>"
  have g1: "get_inputs g k = Inr ?g1"
    by (simp add: get_inputs_def assms(4) Snake_move_next_Cons [OF b])
  have c: "collision_condition ?g1"
    using move_back [OF i p]
    by (simp add: collision_condition_def same_position_as_def)
  from tick_after_inputs [OF g1] c have "\<exists>g'. tick g k = Inr g' \<and> \<not> keep_playing g'"
    by auto
  with g1 c show ?thesis
    by (simp add: after_inputs_iff)
qed

theorem reverse_direction_self_hit_witness:
  "heading (snake opening_game) (1, 0) \<and> unit_velocity (1, 0)
   \<and> 3 \<le> length (body (snake opening_game))
   \<and> get_direction (input_service opening_game) KEY_LEFT
       = Inr (opposite (1, 0), InputService_init\<lparr>current := (- 1, 0)\<rparr>)
   \<and> after_inputs collision_condition opening_game KEY_LEFT
   \<and> (\<exists>g'. tick opening_game KEY_LEFT = Inr g' \<and> \<not> keep_playing g')"
proof -
  have h: "heading (snake opening_game) (1, 0)"
    by (simp add: heading_def opening_game_def new_segment_def position_move_next interior_iff)
  have u: "unit_velocity (1, 0)"
    by (simp add: unit_velocity_def)
  have l: "3 \<le> length (body (snake opening_game))"
    by (simp add: opening_game_def)
  have d: "get_direction (input_service opening_game) KEY_LEFT
       = Inr (opposite (1, 0), InputService_init\<lparr>current := (- 1, 0)\<rparr>)"
    by (simp add: opening_game_def get_direction_def InputService_init_def Let_def opposite_def)
  from reverse_direction_self_hit [OF h u l d] h u l d show ?thesis
    by simp
qed

text \<open>
  The hypotheses of the reversal are those of every game of a session.
\<close>

lemma position_move_next_cong:
  "position a = position b \<Longrightarrow> velocity a = velocity b \<Longrightarrow>
   position (Actor_move_next a) = position (Actor_move_next b)"
  by (simp add: position_move_next)

lemma heading_after_move:
  assumes "interior (position h)"
  shows "heading (s\<lparr>body := Actor_move_next (h\<lparr>velocity := d\<rparr>) #
                     new_segment (position h) # t\<rparr>) d"
  using assms
  by (simp add: heading_def position_move_next_cong new_segment_def)

lemma get_direction_steered:
  assumes "get_direction i k = Inr (d, i')"
    and "directions i = directions InputService_init" and "unit_velocity (current i)"
  shows "i' = i\<lparr>current := d\<rparr> \<and> unit_velocity d"
  using assms
  by (cases k) (auto simp add: get_direction_def Let_def InputService_init_def
      unit_velocity_def split: if_splits)

lemma tick_steered:
  assumes "tick g k = Inr g'" and "well_placed g" and "steered g"
  shows "steered g'"
proof -
  from tick_Inr [OF assms(1)] obtain g1 where g1: "get_inputs g k = Inr g1"
    by blast
  from get_inputs_Inr [OF g1] obtain h t d i' where
    b: "body (snake g) = h # t"
    and gd: "get_direction (input_service g) k = Inr (d, i')"
    and g1': "g1 = g\<lparr>input_service := i',
                     snake := (snake g)\<lparr>body := Actor_move_next (h\<lparr>velocity := d\<rparr>) #
                                 butlast (new_segment (position h) # t)\<rparr>\<rparr>"
    by blast
  from assms(3) b obtain a t' where t: "t = a # t'" and t': "t' \<noteq> []"
    by (cases t; cases "tl t") (auto simp add: steered_def)
  from get_direction_steered [OF gd] assms(3)
  have i': "i' = (input_service g)\<lparr>current := d\<rparr>" and u: "unit_velocity d"
    by (simp_all add: steered_def)
  from assms(2) b have ih: "interior (position h)"
    by (simp add: well_placed_def)
  let ?H = "Actor_move_next (h\<lparr>velocity := d\<rparr>)"
  let ?t1 = "new_segment (position h) # butlast t"
  have b1: "body (snake g1) = ?H # ?t1"
    by (simp add: g1' t)
  have s1: "steered g1"
    using heading_after_move [OF ih, where s = "snake g" and d = d and t = "butlast t"]
      u assms(3) b t t'
    by (simp add: steered_def g1' i')
  from tick_after_inputs [OF g1] obtain g2 g3 where
    g2: "g2 = g1\<lparr>keep_playing := (if collision_condition g1 then False else keep_playing g)\<rparr>"
    and g3: "update_score g2 = Inr g3"
    and tk: "tick g k = Inr (g3\<lparr>output_service :=
                  \<lparr>window = window (output_service g) @ [render_frame g3]\<rparr>\<rparr>)"
    by blast
  have b2: "body (snake g2) = ?H # ?t1"
    using b1 g2 by simp
  have s2: "steered g2"
    using s1 g2 by (simp add: steered_def)
  have "steered g3"
  proof (cases "feeding_condition g2")
    case True
    with g3 have e: "g3 = g2\<lparr>snake := (snake g2)\<lparr>body := Actor_move_next ?H #
                          new_segment (position ?H) # ?t1\<rparr>,
                   score := add_points (score g2) 1,
                   food := fst (move_random (food g2) (random g2)),
                   random := snd (move_random (food g2) (random g2))\<rparr>"
      by (simp add: update_score_Cons [OF b2])
    have v: "current (input_service g2) = d"
      using g2 g1' i' by simp
    have "?H\<lparr>velocity := d\<rparr> = ?H"
      by simp
    with heading_after_move [where h = ?H and s = "snake g2" and d = d and t = ?t1]
    have "heading ((snake g2)\<lparr>body := Actor_move_next ?H #
                          new_segment (position ?H) # ?t1\<rparr>) d"
      by simp
    with s2 v show ?thesis
      by (simp add: steered_def e)
  next
    case False
    with g3 have "g3 = g2"
      by (simp add: update_score_Cons [OF b2])
    with s2 show ?thesis
      by simp
  qed
  moreover from tk assms(1) have "g' = g3\<lparr>output_service :=
                  \<lparr>window = window (output_service g) @ [render_frame g3]\<rparr>\<rparr>"
    by simp
  ultimately show ?thesis
    by (simp add: steered_def)
qed

lemma play_steered:
  "play g ks = Inr g' \<Longrightarrow> well_placed g \<Longrightarrow> steered g \<Longrightarrow> steered g'"
proof (induction ks arbitrary: g)
  case Nil
  then show ?case by simp
next
  case (Cons k ks)
  show ?case
  proof (cases "keep_playing g")
    case False
    with Cons.prems show ?thesis by simp
  next
    case True
    with Cons.prems have "and_then (tick g k) (\<lambda>g'. play g' ks) = Inr g'"
      by simp
    from and_then_Inr [OF this] obtain g1 where
      t: "tick g k = Inr g1" and p: "play g1 ks = Inr g'"
      by blast
    from tick_well_placed [OF t Cons.prems(2)] have w: "well_placed g1"
      by simp
    from Cons.IH [OF p w tick_steered [OF t Cons.prems(2,3)]] show ?thesis .
  qed
qed

lemma Game_init_steered:
  "Game_init InputService_init out r = Inr g \<Longrightarrow> steered g"
  by (auto simp add: Game_init_def Snake_init_eq split_beta steered_def heading_def
      new_segment_def position_move_next interior_iff InputService_init_def unit_velocity_def)

text \<open>
  Every game of a session is steered: whatever was drawn and typed, the
  hypotheses of the reversal are met with the current direction.
\<close>

lemma session_steered:
  assumes "main r ks = Inr g"
  shows "heading (snake g) (current (input_service g))
         \<and> unit_velocity (current (input_service g))
         \<and> 3 \<le> length (body (snake g))"
proof -
  from Game_init_Inr [of InputService_init OutputService_init r] obtain g0 where
    g0: "Game_init InputService_init OutputService_init r = Inr g0" and w: "well_placed g0"
    by blast
  from assms have "play g0 ks = Inr g"
    by (simp add: main_def g0)
  from play_steered [OF this w Game_init_steered [OF g0]] show ?thesis
    by (simp add: steered_def)
qed

end
